theory Spec2Isabelle
  imports Complex_Main
begin

section \<open>Values of the host language\<close>

text \<open>
  A JavaScript string is a sequence of code units; it is modelled as a \<^typ>\<open>string\<close>,
  one \<^typ>\<open>char\<close> per code unit (so the code units below 256), and \<open>.length\<close> is
  \<^const>\<open>length\<close>. Numbers that count characters or records are \<^typ>\<open>int\<close>; scores and
  vector components are \<^typ>\<open>real\<close>. A rejected promise or a thrown \<open>Error\<close> is the left
  summand of a result.
\<close>

datatype error = Error string

text \<open>The text a template literal gives for a caught \<open>Error\<close> object.\<close>

definition errorToString :: "error \<Rightarrow> string" where
  "errorToString e = (case e of Error message \<Rightarrow> ''Error: '' @ message)"

text \<open>
  \<open>String.prototype.slice(start, end)\<close> on integer arguments: a negative index counts
  from the end, and both indices are clamped to the string. \<open>Array.prototype.slice\<close>
  does the same on an array.
\<close>

definition js_slice :: "'a list \<Rightarrow> int \<Rightarrow> int \<Rightarrow> 'a list" where
  "js_slice s start end =
     (let len = int (length s);
          from = (if start < 0 then max (len + start) 0 else min start len);
          to = (if end < 0 then max (len + end) 0 else min end len)
      in take (nat (to - from)) (drop (nat from) s))"

text \<open>
  The code units that \<open>trim()\<close> strips and that \<open>\s\<close> matches, as far as they are
  below 256: TAB, LF, VT, FF, CR, SPACE and NBSP.
\<close>

definition isWhiteSpace :: "char \<Rightarrow> bool" where
  "isWhiteSpace c =
     (c = CHR 0x09 \<or> c = CHR 0x0A \<or> c = CHR 0x0B \<or> c = CHR 0x0C \<or> c = CHR 0x0D
      \<or> c = CHR 0x20 \<or> c = CHR 0xA0)"

definition js_trim :: "string \<Rightarrow> string" where
  "js_trim s = rev (dropWhile isWhiteSpace (rev (dropWhile isWhiteSpace s)))"

text \<open>\<open>s.replace(/\s+/g, " ")\<close>: every maximal run of white space becomes one space.\<close>

function replaceWhiteSpaceRuns :: "string \<Rightarrow> string" where
  "replaceWhiteSpaceRuns [] = []"
| "replaceWhiteSpaceRuns (c # cs) =
     (if isWhiteSpace c then CHR 0x20 # replaceWhiteSpaceRuns (dropWhile isWhiteSpace cs)
      else c # replaceWhiteSpaceRuns cs)"
  by pat_completeness auto
termination
  by (relation "measure length") (auto simp: le_imp_less_Suc length_dropWhile_le)

text \<open>\<open>Array.prototype.join(separator)\<close> on an array of strings.\<close>

fun js_join :: "'a list \<Rightarrow> 'a list list \<Rightarrow> 'a list" where
  "js_join separator [] = []"
| "js_join separator [x] = x"
| "js_join separator (x # y # ys) = x @ separator @ js_join separator (y # ys)"

text \<open>The decimal text of a loop index inside a template literal.\<close>

fun numberToString :: "nat \<Rightarrow> string" where
  "numberToString n =
     (if n < 10 then [''0123456789'' ! n]
      else numberToString (n div 10) @ [''0123456789'' ! (n mod 10)])"

text \<open>
  \<open>x || d\<close> on an optional number and on an optional string: \<open>undefined\<close>, \<open>0\<close> and
  the empty string are falsy.
\<close>

definition numberOr :: "'a::zero option \<Rightarrow> 'a \<Rightarrow> 'a" where
  "numberOr x d = (case x of None \<Rightarrow> d | Some v \<Rightarrow> if v = 0 then d else v)"

definition stringOr :: "string option \<Rightarrow> string \<Rightarrow> string" where
  "stringOr x d = (case x of None \<Rightarrow> d | Some v \<Rightarrow> if v = [] then d else v)"

section \<open>The option types (\<open>types.ts\<close>)\<close>

text \<open>
  An optional field is an \<^typ>\<open>'a option\<close>, \<^const>\<open>None\<close> for \<open>undefined\<close>. The
  \<open>provider\<close> fields have one-value literal types and no code reads them; they are left
  out. \<open>normalizeOptions\<close> reads the required name of the window as \<open>opts.indexName\<close>
  (the later revision of \<open>types.ts\<close> and the registry call the same field
  \<open>namespace\<close>); the record has the field the function reads. Where two records of the
  source share a field name, the fields are told apart by the record's name.
\<close>

record AIConfig =
  model :: "string option"

record VectorStoreConfig =
  namespace :: "string option"

record ChunkConfig =
  size' :: "int option"
  overlap :: "int option"

record LimitsConfig =
  topK :: "int option"
  maxContextChars :: "int option"
  scoreThreshold :: "real option"

text \<open>The \<open>data\<close> field is \<open>string | string[]\<close>.\<close>

datatype dataPaths = OnePath string | PathList "string list"

record CreateContextWindowOptions =
  indexName :: "string option"
  data :: dataPaths
  ai :: "AIConfig option"
  vectorStore :: "VectorStoreConfig option"
  chunk :: "ChunkConfig option"
  limits :: "LimitsConfig option"

record AskResult =
  text' :: string
  sources :: "string list"

record NormalizedOptions =
  indexName :: string
  dataPaths :: "string list"
  aiModel :: string
  namespace :: string
  chunkSize :: int
  chunkOverlap :: int
  topK :: int
  maxContextChars :: int
  scoreThreshold :: real

text \<open>The options of \<open>getCtxWindow\<close> (\<open>registry.ts\<close>), every field optional.\<close>

record GetContextWindowOptions =
  aiModel :: "string option"
  namespace :: "string option"
  topK :: "int option"
  maxContextChars :: "int option"
  scoreThreshold :: "real option"

text \<open>
  A \<open>ContextWindow\<close> is the object \<open>{ ask }\<close>, the closure of \<open>ask\<close> over the
  configuration it was created with. It is represented by the fields of that
  configuration which \<open>ask\<close> reads.
\<close>

record ContextWindow =
  aiModel :: string
  namespace :: string
  topK :: int
  maxContextChars :: int
  scoreThreshold :: real

section \<open>The chunker (\<open>util/chunker.ts\<close>)\<close>

record ChunkOptions =
  size' :: int
  overlap :: int

text \<open>
  The sliding-window loop of \<open>chunkText\<close>. The source loop has no bound of its own (with
  \<open>overlap \<ge> size\<close> the window start never advances), so the loop is a partial function
  and \<^const>\<open>None\<close> stands for a run that never returns.
\<close>

partial_function (option) chunkLoop ::
  "'a list \<Rightarrow> int \<Rightarrow> int \<Rightarrow> int \<Rightarrow> 'a list list \<Rightarrow> 'a list list option" where
  "chunkLoop text sz ov start chunks =
     (if start < int (length text) then
        (if start + sz \<ge> int (length text)
         then Some (chunks @ [js_slice text start (start + sz)])
         else chunkLoop text sz ov (start + (sz - ov))
                (chunks @ [js_slice text start (start + sz)]))
      else Some chunks)"

declare chunkLoop.simps [code]

definition chunkText :: "'a list \<Rightarrow> ChunkOptions \<Rightarrow> 'a list list option" where
  "chunkText text options =
     (if length text = 0 then Some []
      else if int (length text) \<le> size' options then Some [text]
      else chunkLoop text (size' options) (overlap options) 0 [])"

text \<open>The window the loop emits in its \<open>i\<close>-th iteration, counted from \<open>start\<close>.\<close>

definition window :: "'a list \<Rightarrow> int \<Rightarrow> int \<Rightarrow> int \<Rightarrow> nat \<Rightarrow> 'a list" where
  "window text sz ov start i =
     js_slice text (start + int i * (sz - ov)) (start + int i * (sz - ov) + sz)"

lemma js_slice_nonneg:
  "0 \<le> s \<Longrightarrow> s \<le> e \<Longrightarrow> js_slice xs s e = take (nat e - nat s) (drop (nat s) xs)"
  by (auto simp: js_slice_def Let_def min_def nat_diff_distrib)

section \<open>Collaborators and their effects\<close>

subsection \<open>The types of the adapters (\<open>adapters/store/types.ts\<close>, \<open>adapters/ai/types.ts\<close>)\<close>

text \<open>
  The \<open>values\<close> of a record are \<^term>\<open>Some []\<close> for the placeholder \<open>[]\<close> and
  \<^const>\<open>None\<close> for \<open>undefined\<close>, which is what reading an embedding past the end of
  the returned array gives.
\<close>

record Metadata =
  text' :: string
  source :: string

record VectorRecord =
  id' :: string
  values' :: "real list option"
  metadata :: Metadata

record QueryArgs =
  vector :: "real list option"
  topK :: int
  namespace :: string
  scoreThreshold :: real

record QueryMatch =
  id' :: string
  score :: real
  metadata :: Metadata

record ChatArgs =
  model :: string
  system :: string
  user :: string

subsection \<open>Calls, outcomes and the trace\<close>

text \<open>
  Every collaborator is a function on an abstract world \<open>'w\<close> that returns its result, or
  the error its promise rejects with, and the next world. Each invocation is recorded in
  a trace with its arguments and its outcome, so that "this collaborator was not invoked"
  is a statement about the trace. Console output is not modelled.
\<close>

datatype outcome = Resolved | Rejected

datatype call =
    Stat string
  | Readdir string
  | ReadAsText string
  | Embed "string list"
  | Upsert "VectorRecord list" string
  | Query QueryArgs
  | Chat ChatArgs
  | EnsurePineconeIndex int

record 'w state =
  world :: 'w
  trace :: "(call \<times> outcome) list"

type_synonym ('w, 'a) promise = "'w \<Rightarrow> (error + 'a) \<times> 'w"

type_synonym 'w EmbedFn = "string list \<Rightarrow> ('w, real list list) promise"
type_synonym 'w ChatFn = "ChatArgs \<Rightarrow> ('w, string) promise"
type_synonym 'w UpsertFn = "VectorRecord list \<Rightarrow> string \<Rightarrow> ('w, unit) promise"
type_synonym 'w QueryFn = "QueryArgs \<Rightarrow> ('w, QueryMatch list) promise"

definition outcomeOf :: "error + 'a \<Rightarrow> outcome" where
  "outcomeOf r = (case r of Inl e \<Rightarrow> Rejected | Inr v \<Rightarrow> Resolved)"

definition invoke :: "call \<Rightarrow> ('w, 'a) promise \<Rightarrow> 'w state \<Rightarrow> (error + 'a) \<times> 'w state" where
  "invoke c f s =
     (case f (world s) of
        (r, w) \<Rightarrow> (r, \<lparr>world = w, trace = trace s @ [(c, outcomeOf r)]\<rparr>))"

subsection \<open>The environment\<close>

text \<open>
  What the modules import: \<open>stat\<close> and \<open>readdir\<close> of \<open>fs/promises\<close>, \<open>join\<close> and
  \<open>basename\<close> of \<open>path\<close>, the SHA-1 hex digest of \<open>crypto\<close>, \<open>readAsText\<close> and
  \<open>isSupportedFile\<close> of \<open>io/readers.ts\<close> (text extraction and the file-type
  predicate, which rest on \<open>fs\<close>, \<open>path\<close> and \<open>pdf-parse\<close>), and the adapter
  functions that \<open>createOpenAIEmbed()\<close>, \<open>createOpenAIChat()\<close>,
  \<open>createPineconeUpsert()\<close> and \<open>createPineconeQuery()\<close> return. Creating an adapter
  function is no call of it: nothing is read or sent until the function is applied.
\<close>

datatype fileKind = IsFile | IsDirectory | IsOther

record Dirent =
  name :: string
  kind :: fileKind

record 'w environment =
  stat :: "string \<Rightarrow> ('w, fileKind) promise"
  readdir :: "string \<Rightarrow> ('w, Dirent list) promise"
  join :: "string \<Rightarrow> string \<Rightarrow> string"
  basename :: "string \<Rightarrow> string"
  sha1Hex :: "string \<Rightarrow> string"
  readAsText :: "string \<Rightarrow> ('w, string) promise"
  isSupportedFile :: "string \<Rightarrow> bool"
  createOpenAIEmbed :: "'w EmbedFn"
  createOpenAIChat :: "'w ChatFn"
  createPineconeUpsert :: "'w UpsertFn"
  createPineconeQuery :: "'w QueryFn"
  ensurePineconeIndex :: "int \<Rightarrow> ('w, unit) promise"

section \<open>The fingerprint (\<open>util/hash.ts\<close>)\<close>

definition stableHash :: "'w environment \<Rightarrow> string \<Rightarrow> string" where
  "stableHash env input = sha1Hex env input"

section \<open>Ingestion (\<open>io/ingest.ts\<close>)\<close>

text \<open>The collaborators of an ingestion are fields of its options, as in the source.\<close>

record 'w IngestOptions =
  inputs :: "string list"
  namespace :: string
  chunkSize :: int
  chunkOverlap :: int
  embed :: "'w EmbedFn"
  upsert :: "'w UpsertFn"

text \<open>
  \<open>collectFiles\<close> walks the inputs and recurses into directories. Nothing in the source
  bounds the nesting, so the model carries the depth it may still descend;
  \<^const>\<open>None\<close> is a walk deeper than that. \<open>collectEntries\<close> is the inner loop over
  the entries of one directory.
\<close>

function collectFiles ::
    "nat \<Rightarrow> 'w environment \<Rightarrow> string list \<Rightarrow> 'w state \<Rightarrow> ((error + string list) \<times> 'w state) option"
  and collectEntries ::
    "nat \<Rightarrow> 'w environment \<Rightarrow> string \<Rightarrow> Dirent list \<Rightarrow> 'w state
       \<Rightarrow> ((error + string list) \<times> 'w state) option"
where
  "collectFiles depth env [] s = Some (Inr [], s)"
| "collectFiles depth env (path # paths) s =
     (case invoke (Stat path) (stat env path) s of
        (Inl e, s1) \<Rightarrow> Some (Inl e, s1)
      | (Inr stats, s1) \<Rightarrow>
          (case (if stats = IsFile
                 then Some (Inr (if isSupportedFile env path then [path] else []), s1)
                 else if stats = IsDirectory
                 then (case invoke (Readdir path) (readdir env path) s1 of
                         (Inl e, s2) \<Rightarrow> Some (Inl e, s2)
                       | (Inr entries, s2) \<Rightarrow> collectEntries depth env path entries s2)
                 else Some (Inr [], s1)) of
             None \<Rightarrow> None
           | Some (Inl e, s3) \<Rightarrow> Some (Inl e, s3)
           | Some (Inr found, s3) \<Rightarrow>
               (case collectFiles depth env paths s3 of
                  None \<Rightarrow> None
                | Some (Inl e, s4) \<Rightarrow> Some (Inl e, s4)
                | Some (Inr others, s4) \<Rightarrow> Some (Inr (found @ others), s4))))"
| "collectEntries depth env path [] s = Some (Inr [], s)"
| "collectEntries depth env path (entry # entries) s =
     (case (if kind entry = IsDirectory
            then (case depth of
                    0 \<Rightarrow> None
                  | Suc deeper \<Rightarrow> collectFiles deeper env [join env path (name entry)] s)
            else if kind entry = IsFile \<and> isSupportedFile env (join env path (name entry))
            then Some (Inr [join env path (name entry)], s)
            else Some (Inr [], s)) of
        None \<Rightarrow> None
      | Some (Inl e, s1) \<Rightarrow> Some (Inl e, s1)
      | Some (Inr found, s1) \<Rightarrow>
          (case collectEntries depth env path entries s1 of
             None \<Rightarrow> None
           | Some (Inl e, s2) \<Rightarrow> Some (Inl e, s2)
           | Some (Inr others, s2) \<Rightarrow> Some (Inr (found @ others), s2)))"
  by pat_completeness auto
termination
  by (relation "inv_image (less_than <*lex*> less_than <*lex*> less_than)
        (\<lambda>x. case x of
           Inl (depth, env, paths, s) \<Rightarrow> (depth, Suc 0, length paths)
         | Inr (depth, env, path, entries, s) \<Rightarrow> (depth, 0, length entries))")
     auto


text \<open>
  The record id of the \<open>i\<close>-th chunk of a file: the digest of the template literal
  \<open>${filepath}#${i}:${preview}\<close>, where \<open>preview\<close> is the first 64 code units of the
  chunk with its runs of white space replaced.
\<close>

definition preview :: "string \<Rightarrow> string" where
  "preview chunk' = replaceWhiteSpaceRuns (js_slice chunk' 0 64)"

definition recordId :: "'w environment \<Rightarrow> string \<Rightarrow> nat \<Rightarrow> string \<Rightarrow> string" where
  "recordId env filepath i chunk' =
     stableHash env (filepath @ ''#'' @ numberToString i @ '':'' @ preview chunk')"

definition chunkRecords :: "'w environment \<Rightarrow> string \<Rightarrow> string list \<Rightarrow> VectorRecord list" where
  "chunkRecords env filepath chunks =
     map (\<lambda>(i, chunk').
            \<lparr>VectorRecord.id' = recordId env filepath i chunk',
             values' = Some [],
             VectorRecord.metadata = \<lparr>text' = chunk', source = basename env filepath\<rparr>\<rparr>)
         (enumerate 0 chunks)"

text \<open>
  The loop over the files. A rejected \<open>readAsText\<close> is caught and the file skipped; an
  empty or blank text is skipped; a chunking that never returns hangs the whole call.
\<close>

fun processFiles ::
  "'w environment \<Rightarrow> int \<Rightarrow> int \<Rightarrow> string list \<Rightarrow> VectorRecord list \<Rightarrow> 'w state
     \<Rightarrow> (VectorRecord list \<times> 'w state) option" where
  "processFiles env sz ov [] allRecords s = Some (allRecords, s)"
| "processFiles env sz ov (filepath # files) allRecords s =
     (case invoke (ReadAsText filepath) (readAsText env filepath) s of
        (Inl e, s1) \<Rightarrow> processFiles env sz ov files allRecords s1
      | (Inr text, s1) \<Rightarrow>
          if text = [] \<or> length (js_trim text) = 0
          then processFiles env sz ov files allRecords s1
          else (case chunkText text \<lparr>size' = sz, overlap = ov\<rparr> of
                  None \<Rightarrow> None
                | Some chunks \<Rightarrow>
                    processFiles env sz ov files
                      (allRecords @ chunkRecords env filepath chunks) s1))"

text \<open>
  The loop over the batches. The batch is a slice of \<open>allRecords\<close> that shares its
  objects, so assigning \<open>batch[j].values\<close> updates \<open>allRecords\<close> at \<open>i + j\<close>.
\<close>

definition assignEmbeddings :: "VectorRecord list \<Rightarrow> real list list \<Rightarrow> VectorRecord list" where
  "assignEmbeddings batch embeddings =
     map (\<lambda>(j, r). r\<lparr>values' := (if j < length embeddings then Some (embeddings ! j) else None)\<rparr>)
         (enumerate 0 batch)"

definition batchSize :: nat where
  "batchSize = 100"

lemma length_assignEmbeddings [simp]:
  "length (assignEmbeddings batch embeddings) = length batch"
  by (simp add: assignEmbeddings_def)

lemma js_slice_batch:
  "js_slice xs (int i) (int i + int n) = take n (drop i xs)"
  by (subst js_slice_nonneg) (auto simp: nat_add_distrib)

lemma embed_step_measure:
  assumes "i < length xs"
  shows "length (take i xs
               @ assignEmbeddings (js_slice xs (int i) (int i + int batchSize)) es
               @ drop (i + batchSize) xs) - (i + batchSize)
         < length xs - i"
proof -
  have "0 < batchSize" by (simp add: batchSize_def)
  with assms show ?thesis by (simp add: js_slice_batch)
qed

function embedBatches ::
  "'w EmbedFn \<Rightarrow> VectorRecord list \<Rightarrow> nat \<Rightarrow> 'w state \<Rightarrow> (error + VectorRecord list) \<times> 'w state" where
  "embedBatches embedFn allRecords i s =
     (if i < length allRecords then
        (case invoke (Embed (map (\<lambda>r. text' (VectorRecord.metadata r))
                               (js_slice allRecords (int i) (int i + int batchSize))))
                (embedFn (map (\<lambda>r. text' (VectorRecord.metadata r))
                               (js_slice allRecords (int i) (int i + int batchSize)))) s of
           (Inl e, s1) \<Rightarrow> (Inl (Error (''Embedding batch failed: '' @ errorToString e)), s1)
         | (Inr embeddings, s1) \<Rightarrow>
             embedBatches embedFn
               (take i allRecords
                  @ assignEmbeddings (js_slice allRecords (int i) (int i + int batchSize)) embeddings
                  @ drop (i + batchSize) allRecords)
               (i + batchSize) s1)
      else (Inr allRecords, s))"
  by pat_completeness auto
termination
  apply (relation "measure (\<lambda>(embedFn, allRecords, i, s). length allRecords - i)")
   apply simp
  apply (simp only: in_measure prod.case)
  apply (erule embed_step_measure)
  done

definition ingestPaths ::
  "nat \<Rightarrow> 'w environment \<Rightarrow> 'w IngestOptions \<Rightarrow> 'w state \<Rightarrow> ((error + unit) \<times> 'w state) option" where
  "ingestPaths depth env options s =
     (case collectFiles depth env (inputs options) s of
        None \<Rightarrow> None
      | Some (Inl e, s1) \<Rightarrow> Some (Inl e, s1)
      | Some (Inr files, s1) \<Rightarrow>
          if length files = 0 then Some (Inr (), s1)
          else (case processFiles env (chunkSize options) (chunkOverlap options) files [] s1 of
                  None \<Rightarrow> None
                | Some (allRecords, s2) \<Rightarrow>
                    if length allRecords = 0 then Some (Inr (), s2)
                    else (case embedBatches (embed options) allRecords 0 s2 of
                            (Inl e, s3) \<Rightarrow> Some (Inl e, s3)
                          | (Inr embedded, s3) \<Rightarrow>
                              Some (invoke (Upsert embedded (namespace options))
                                      (upsert options embedded (namespace options)) s3))))"

section \<open>The context window (\<open>core/ContextWindow.ts\<close>)\<close>

text \<open>
  \<open>normalizeOptions\<close>. The defaults are computed before the two checks in the source;
  computing them has no effect, so the model computes them where they are returned. In
  the branch that returns, \<open>opts.indexName\<close> is a non-empty string.
\<close>

definition normalizeOptions :: "CreateContextWindowOptions \<Rightarrow> error + NormalizedOptions" where
  "normalizeOptions opts =
     (let paths = (case data opts of PathList ps \<Rightarrow> ps | OnePath p \<Rightarrow> [p]) in
      case CreateContextWindowOptions.indexName opts of
        None \<Rightarrow> Inl (Error ''indexName is required'')
      | Some n \<Rightarrow>
          if n = [] then Inl (Error ''indexName is required'')
          else if length paths = 0 then Inl (Error ''at least one data path is required'')
          else Inr
            \<lparr>NormalizedOptions.indexName = n,
             NormalizedOptions.dataPaths = paths,
             NormalizedOptions.aiModel = stringOr (Option.bind (ai opts) AIConfig.model) ''gpt-4o-mini'',
             NormalizedOptions.namespace =
               stringOr (Option.bind (vectorStore opts) VectorStoreConfig.namespace) n,
             NormalizedOptions.chunkSize = numberOr (Option.bind (chunk opts) ChunkConfig.size') 1000,
             NormalizedOptions.chunkOverlap =
               numberOr (Option.bind (chunk opts) ChunkConfig.overlap) 150,
             NormalizedOptions.topK = numberOr (Option.bind (limits opts) LimitsConfig.topK) 8,
             NormalizedOptions.maxContextChars =
               numberOr (Option.bind (limits opts) LimitsConfig.maxContextChars) 8000,
             NormalizedOptions.scoreThreshold =
               numberOr (Option.bind (limits opts) LimitsConfig.scoreThreshold) 0\<rparr>)"

text \<open>
  \<open>packContext\<close>: the loop over the matches with its four variables, then the join.
\<close>

record PackedContext =
  context' :: string
  sources :: "string list"

fun packLoop ::
  "QueryMatch list \<Rightarrow> int \<Rightarrow> string list \<Rightarrow> string list \<Rightarrow> string set \<Rightarrow> nat
     \<Rightarrow> string list \<times> string list" where
  "packLoop [] maxChars chunks srcs seenSources totalChars = (chunks, srcs)"
| "packLoop (m # matches) maxChars chunks srcs seenSources totalChars =
     (if int totalChars + int (length (text' (metadata m))) > maxChars then (chunks, srcs)
      else packLoop matches maxChars
             (chunks @ [text' (metadata m)])
             (if source (metadata m) \<in> seenSources then srcs else srcs @ [source (metadata m)])
             (if source (metadata m) \<in> seenSources then seenSources
              else insert (source (metadata m)) seenSources)
             (totalChars + length (text' (metadata m))))"

definition packSeparator :: string where
  "packSeparator = [CHR 0x0A, CHR 0x0A, CHR ''-'', CHR ''-'', CHR ''-'', CHR 0x0A, CHR 0x0A]"

definition packContext :: "QueryMatch list \<Rightarrow> int \<Rightarrow> PackedContext" where
  "packContext matches maxChars =
     (case packLoop matches maxChars [] [] {} 0 of
        (chunks, srcs) \<Rightarrow> \<lparr>context' = js_join packSeparator chunks, sources = srcs\<rparr>)"

definition buildSystemPrompt :: "string \<Rightarrow> string" where
  "buildSystemPrompt ctx =
     ''You are a strict RAG assistant.'' @ [CHR 0x0A, CHR 0x0A]
     @ ''Answer ONLY using the provided context. If not fully supported,'' @ [CHR 0x0A]
     @ ''say: '' @ [CHR 0x22] @ ''I don't know based on the uploaded files.'' @ [CHR 0x22, CHR 0x0A]
     @ ''Cite sources like [filename]. Keep answers concise.'' @ [CHR 0x0A, CHR 0x0A]
     @ ''Context:'' @ [CHR 0x0A] @ ctx"

definition unknownAnswer :: AskResult where
  "unknownAnswer =
     \<lparr>AskResult.text' = ''I don't know based on the uploaded files.'', AskResult.sources = []\<rparr>"

text \<open>
  \<open>ask\<close>, the method of both kinds of window. The destructuring
  \<open>const [questionVector] = await embed([question])\<close> takes the first vector, or
  \<open>undefined\<close> from an empty array.
\<close>

definition queryArgs :: "ContextWindow \<Rightarrow> real list list \<Rightarrow> QueryArgs" where
  "queryArgs config vectors =
     \<lparr>vector = (case vectors of [] \<Rightarrow> None | questionVector # _ \<Rightarrow> Some questionVector),
      QueryArgs.topK = ContextWindow.topK config,
      QueryArgs.namespace = ContextWindow.namespace config,
      QueryArgs.scoreThreshold = ContextWindow.scoreThreshold config\<rparr>"

definition ask ::
  "'w environment \<Rightarrow> ContextWindow \<Rightarrow> string \<Rightarrow> 'w state \<Rightarrow> (error + AskResult) \<times> 'w state" where
  "ask env config question s =
     (case invoke (Embed [question]) (createOpenAIEmbed env [question]) s of
        (Inl e, s1) \<Rightarrow> (Inl e, s1)
      | (Inr vectors, s1) \<Rightarrow>
          (let args = queryArgs config vectors in
           case invoke (Query args) (createPineconeQuery env args) s1 of
             (Inl e, s2) \<Rightarrow> (Inl e, s2)
           | (Inr matches, s2) \<Rightarrow>
               (let packed = packContext matches (ContextWindow.maxContextChars config) in
                if context' packed = [] \<or> length (js_trim (context' packed)) = 0
                then (Inr unknownAnswer, s2)
                else
                  (let chatArgs = \<lparr>ChatArgs.model = ContextWindow.aiModel config,
                                   system = buildSystemPrompt (context' packed),
                                   user = question\<rparr> in
                   case invoke (Chat chatArgs) (createOpenAIChat env chatArgs) s2 of
                     (Inl e, s3) \<Rightarrow> (Inl e, s3)
                   | (Inr answer, s3) \<Rightarrow>
                       (Inr \<lparr>AskResult.text' = answer, AskResult.sources = sources packed\<rparr>, s3)))))"

definition createContextWindowWithoutIngestion ::
  "string \<Rightarrow> GetContextWindowOptions option \<Rightarrow> ContextWindow" where
  "createContextWindowWithoutIngestion name' options =
     \<lparr>ContextWindow.aiModel =
        stringOr (Option.bind options GetContextWindowOptions.aiModel) ''gpt-4o-mini'',
      ContextWindow.namespace =
        stringOr (Option.bind options GetContextWindowOptions.namespace) name',
      ContextWindow.topK = numberOr (Option.bind options GetContextWindowOptions.topK) 8,
      ContextWindow.maxContextChars =
        numberOr (Option.bind options GetContextWindowOptions.maxContextChars) 8000,
      ContextWindow.scoreThreshold =
        numberOr (Option.bind options GetContextWindowOptions.scoreThreshold) 0\<rparr>"

definition createContextWindow ::
  "nat \<Rightarrow> 'w environment \<Rightarrow> CreateContextWindowOptions \<Rightarrow> 'w state
     \<Rightarrow> ((error + ContextWindow) \<times> 'w state) option" where
  "createContextWindow depth env opts s =
     (case normalizeOptions opts of
        Inl e \<Rightarrow> Some (Inl e, s)
      | Inr config \<Rightarrow>
          (case invoke (EnsurePineconeIndex 1536) (ensurePineconeIndex env 1536) s of
             (Inl e, s1) \<Rightarrow> Some (Inl e, s1)
           | (Inr u, s1) \<Rightarrow>
               (case ingestPaths depth env
                       \<lparr>inputs = NormalizedOptions.dataPaths config,
                        IngestOptions.namespace = NormalizedOptions.namespace config,
                        IngestOptions.chunkSize = NormalizedOptions.chunkSize config,
                        IngestOptions.chunkOverlap = NormalizedOptions.chunkOverlap config,
                        embed = createOpenAIEmbed env,
                        upsert = createPineconeUpsert env\<rparr> s1 of
                  None \<Rightarrow> None
                | Some (Inl e, s2) \<Rightarrow> Some (Inl e, s2)
                | Some (Inr u', s2) \<Rightarrow>
                    Some (Inr \<lparr>ContextWindow.aiModel = NormalizedOptions.aiModel config,
                               ContextWindow.namespace = NormalizedOptions.namespace config,
                               ContextWindow.topK = NormalizedOptions.topK config,
                               ContextWindow.maxContextChars = NormalizedOptions.maxContextChars config,
                               ContextWindow.scoreThreshold = NormalizedOptions.scoreThreshold config\<rparr>,
                          s2))))"

section \<open>The registry (\<open>core/registry.ts\<close>)\<close>

text \<open>
  The module-level \<open>Map\<close> from the window's name to the window. The two revisions of the
  file differ in the parameter's name only (\<open>indexName\<close>, \<open>namespace\<close>). Each operation
  takes the registry and returns it updated.
\<close>

type_synonym registry = "string \<rightharpoonup> ContextWindow"

definition createCtxWindow ::
  "nat \<Rightarrow> 'w environment \<Rightarrow> CreateContextWindowOptions \<Rightarrow> registry \<Rightarrow> 'w state
     \<Rightarrow> ((error + ContextWindow) \<times> registry \<times> 'w state) option" where
  "createCtxWindow depth env opts registry s =
     (case createContextWindow depth env opts s of
        None \<Rightarrow> None
      | Some (Inl e, s1) \<Rightarrow> Some (Inl e, registry, s1)
      | Some (Inr cw, s1) \<Rightarrow>
          (case CreateContextWindowOptions.indexName opts of
             None \<Rightarrow> Some (Inr cw, registry, s1)
           | Some n \<Rightarrow> Some (Inr cw, registry(n \<mapsto> cw), s1)))"

definition getCtxWindow ::
  "string \<Rightarrow> GetContextWindowOptions option \<Rightarrow> registry \<Rightarrow> ContextWindow \<times> registry" where
  "getCtxWindow name' options registry =
     (case registry name' of
        Some cw \<Rightarrow> (cw, registry)
      | None \<Rightarrow>
          (createContextWindowWithoutIngestion name' options,
           registry(name' \<mapsto> createContextWindowWithoutIngestion name' options)))"

definition hasCtxWindow :: "string \<Rightarrow> registry \<Rightarrow> bool" where
  "hasCtxWindow name' registry = (registry name' \<noteq> None)"

definition deleteCtxWindow :: "string \<Rightarrow> registry \<Rightarrow> bool \<times> registry" where
  "deleteCtxWindow name' registry = (registry name' \<noteq> None, registry(name' := None))"

definition clearCtxWindows :: "registry \<Rightarrow> registry" where
  "clearCtxWindows registry = Map.empty"

section \<open>Vocabulary of the properties\<close>

text \<open>The text of a match, and the number of characters in the texts of a list of matches.\<close>

definition matchText :: "QueryMatch \<Rightarrow> string" where
  "matchText m = text' (metadata m)"

definition totalLength :: "QueryMatch list \<Rightarrow> nat" where
  "totalLength ms = sum_list (map (\<lambda>m. length (matchText m)) ms)"

text \<open>A string that \<open>trim()\<close> leaves empty: the empty string, or white space only.\<close>

definition blank :: "string \<Rightarrow> bool" where
  "blank s = (js_trim s = [])"

text \<open>The arguments of the generation calls in a trace.\<close>

definition chatCalls :: "(call \<times> outcome) list \<Rightarrow> ChatArgs list" where
  "chatCalls tr = concat (map (\<lambda>(c, oc). case c of Chat args \<Rightarrow> [args] | _ \<Rightarrow> []) tr)"



section \<open>Example inputs\<close>

text \<open>Three ranked matches of 4, 8 and 1 characters, for a budget of 6.\<close>

definition rankedMatches :: "QueryMatch list" where
  "rankedMatches =
     [\<lparr>QueryMatch.id' = ''1'', score = 0.9, metadata = \<lparr>text' = ''aaaa'', source = ''a.txt''\<rparr>\<rparr>,
      \<lparr>QueryMatch.id' = ''2'', score = 0.8, metadata = \<lparr>text' = ''bbbbbbbb'', source = ''b.txt''\<rparr>\<rparr>,
      \<lparr>QueryMatch.id' = ''3'', score = 0.7, metadata = \<lparr>text' = ''c'', source = ''c.txt''\<rparr>\<rparr>]"

text \<open>Options that set every numeric field to 0.\<close>

definition zeroOptions :: CreateContextWindowOptions where
  "zeroOptions =
     \<lparr>CreateContextWindowOptions.indexName = Some ''docs'',
      data = PathList [''a.txt''],
      ai = None,
      vectorStore = None,
      chunk = Some \<lparr>ChunkConfig.size' = Some 0, ChunkConfig.overlap = Some 0\<rparr>,
      limits = Some \<lparr>LimitsConfig.topK = Some 0, LimitsConfig.maxContextChars = Some 0,
                      LimitsConfig.scoreThreshold = Some 0\<rparr>\<rparr>"

definition zeroGetOptions :: GetContextWindowOptions where
  "zeroGetOptions =
     \<lparr>GetContextWindowOptions.aiModel = None,
      GetContextWindowOptions.namespace = None,
      GetContextWindowOptions.topK = Some 0,
      GetContextWindowOptions.maxContextChars = Some 0,
      GetContextWindowOptions.scoreThreshold = None\<rparr>"

text \<open>
  Collaborators that all succeed, on a world that counts the calls made. The digest is a
  stand-in that pads or cuts its input to 40 characters.
\<close>

definition paddedDigest :: "string \<Rightarrow> string" where
  "paddedDigest input = take 40 (input @ replicate 40 CHR ''0'')"

definition countingEnv :: "nat environment" where
  "countingEnv =
     \<lparr>stat = (\<lambda>p w. (Inr IsFile, Suc w)),
      readdir = (\<lambda>p w. (Inr [], Suc w)),
      join = (\<lambda>a b. a @ ''/'' @ b),
      basename = (\<lambda>p. p),
      sha1Hex = paddedDigest,
      readAsText = (\<lambda>p w. (Inr ''America was founded in 1776.'', Suc w)),
      isSupportedFile = (\<lambda>p. True),
      createOpenAIEmbed = (\<lambda>texts w. (Inr (map (\<lambda>t. [1]) texts), Suc w)),
      createOpenAIChat = (\<lambda>args w. (Inr ''In 1776.'', Suc w)),
      createPineconeUpsert = (\<lambda>records n w. (Inr (), Suc w)),
      createPineconeQuery = (\<lambda>args w. (Inr [], Suc w)),
      ensurePineconeIndex = (\<lambda>d w. (Inr (), Suc w))\<rparr>"

definition noName :: CreateContextWindowOptions where
  "noName =
     \<lparr>CreateContextWindowOptions.indexName = None, data = PathList [''a.txt''], ai = None,
      vectorStore = None, chunk = None, limits = None\<rparr>"

definition noData :: CreateContextWindowOptions where
  "noData =
     \<lparr>CreateContextWindowOptions.indexName = Some ''docs'', data = PathList [], ai = None,
      vectorStore = None, chunk = None, limits = None\<rparr>"

text \<open>A window on the namespace \<open>docs\<close> with the default limits.\<close>

definition docsWindow :: ContextWindow where
  "docsWindow = createContextWindowWithoutIngestion ''docs'' None"

text \<open>A query that returns one match of white space, and one that returns two blank matches.\<close>

definition blankMatch :: QueryMatch where
  "blankMatch =
     \<lparr>QueryMatch.id' = ''1'', score = 0.9,
      metadata = \<lparr>text' = [CHR 0x20, CHR 0x09, CHR 0x0A], source = ''notes.txt''\<rparr>\<rparr>"

definition emptyMatch :: QueryMatch where
  "emptyMatch =
     \<lparr>QueryMatch.id' = ''2'', score = 0.8, metadata = \<lparr>text' = [], source = ''empty.txt''\<rparr>\<rparr>"

definition answering :: "QueryMatch list \<Rightarrow> nat environment" where
  "answering matches = countingEnv\<lparr>createPineconeQuery := (\<lambda>args w. (Inr matches, Suc w))\<rparr>"






section \<open>Properties of the chunker\<close>

lemma chunkLoop_returns:
  assumes "ov < sz"
  shows "\<exists>cs. chunkLoop text sz ov start chunks = Some cs"
proof (induction "nat (int (length text) - start)" arbitrary: start chunks rule: less_induct)
  case less
  show ?case
  proof (cases "start < int (length text) \<and> \<not> start + sz \<ge> int (length text)")
    case True
    then have "nat (int (length text) - (start + (sz - ov))) < nat (int (length text) - start)"
      using assms by linarith
    from less[OF this] show ?thesis
      using True by (subst chunkLoop.simps) simp
  next
    case False
    then show ?thesis by (subst chunkLoop.simps) auto
  qed
qed

lemma chunkLoop_windows:
  assumes "ov < sz" and "0 \<le> ov"
  shows "start < int (length text) \<Longrightarrow>
         \<exists>n. chunkLoop text sz ov start chunks
                = Some (chunks @ map (window text sz ov start) [0..<Suc n])
           \<and> (\<forall>i<n. start + int i * (sz - ov) + sz < int (length text))
           \<and> int (length text) \<le> start + int n * (sz - ov) + sz"
proof (induction "nat (int (length text) - start)" arbitrary: start chunks rule: less_induct)
  case less
  show ?case
  proof (cases "start + sz \<ge> int (length text)")
    case True
    have "chunkLoop text sz ov start chunks = Some (chunks @ map (window text sz ov start) [0..<Suc 0])"
      using True less.prems by (subst chunkLoop.simps) (simp add: window_def)
    with True show ?thesis by force
  next
    case False
    let ?s = "start + (sz - ov)"
    have lt: "?s < int (length text)" using False assms by linarith
    have m: "nat (int (length text) - ?s) < nat (int (length text) - start)"
      using assms less.prems by linarith
    from less.hyps[OF m lt, of "chunks @ [js_slice text start (start + sz)]"]
    obtain n where n: "chunkLoop text sz ov ?s (chunks @ [js_slice text start (start + sz)])
         = Some ((chunks @ [js_slice text start (start + sz)]) @ map (window text sz ov ?s) [0..<Suc n])"
      and b: "\<forall>i<n. ?s + int i * (sz - ov) + sz < int (length text)"
      and e: "int (length text) \<le> ?s + int n * (sz - ov) + sz"
      by blast
    have w: "window text sz ov ?s i = window text sz ov start (Suc i)" for i
      by (simp add: window_def algebra_simps)
    have w0: "js_slice text start (start + sz) = window text sz ov start 0"
      by (simp add: window_def)
    have "map (window text sz ov start) [0..<Suc (Suc n)]
            = window text sz ov start 0 # map (window text sz ov ?s) [0..<Suc n]"
      unfolding w by (simp only: map_Suc_upt[symmetric] upt_conv_Cons[of 0 "Suc (Suc n)"] list.map) simp
    then have eq: "chunkLoop text sz ov start chunks
         = Some (chunks @ map (window text sz ov start) [0..<Suc (Suc n)])"
      using False less.prems n w0 by (subst chunkLoop.simps) simp
    have "\<forall>i<Suc n. start + int i * (sz - ov) + sz < int (length text)"
    proof (intro allI impI)
      fix i assume "i < Suc n"
      show "start + int i * (sz - ov) + sz < int (length text)"
      proof (cases i)
        case 0 then show ?thesis using False by simp
      next
        case (Suc j)
        then have "j < n" using \<open>i < Suc n\<close> by simp
        with b have "?s + int j * (sz - ov) + sz < int (length text)" by blast
        then show ?thesis using Suc by (simp add: algebra_simps)
      qed
    qed
    moreover have "int (length text) \<le> start + int (Suc n) * (sz - ov) + sz"
      using e by (simp add: algebra_simps)
    ultimately show ?thesis using eq by blast
  qed
qed

lemma window_pair:
  fixes xs :: "'a list"
  assumes "v \<le> k" and "a + k < length xs"
  shows "drop (k - v) (take k (drop a xs)) = take v (take k (drop (a + (k - v)) xs))"
proof -
  have "drop (k - v) (take k (drop a xs)) = take (k - (k - v)) (drop (k - v) (drop a xs))"
    by (simp only: drop_take)
  also have "\<dots> = take v (drop (a + (k - v)) xs)"
    using assms by (simp add: add.commute)
  also have "\<dots> = take v (take k (drop (a + (k - v)) xs))"
    using assms by (simp add: min_def)
  finally show ?thesis .
qed

text \<open>
  Outside the contract the loop need not return: with overlap = size the window start
  stays where it is, and a text longer than one window is chunked forever.
\<close>

lemma chunkLoop_stuck:
  assumes "chunkLoop t sz ov start chunks = Some cs"
  shows "\<not> (sz = ov \<and> start < int (length t) \<and> start + sz < int (length t))"
proof (rule chunkLoop.raw_induct
        [where P = "\<lambda>t sz ov start chunks cs.
                      \<not> (sz = ov \<and> start < int (length t) \<and> start + sz < int (length t))",
         OF _ assms])
  fix loop :: "'a list \<Rightarrow> int \<Rightarrow> int \<Rightarrow> int \<Rightarrow> 'a list list \<Rightarrow> 'a list list option"
    and t sz ov start chunks cs
  assume IH: "\<And>t sz ov start chunks cs. loop t sz ov start chunks = Some cs \<Longrightarrow>
                \<not> (sz = ov \<and> start < int (length t) \<and> start + sz < int (length t))"
    and step: "(if start < int (length t)
                then if int (length t) \<le> start + sz
                     then Some (chunks @ [js_slice t start (start + sz)])
                     else loop t sz ov (start + (sz - ov)) (chunks @ [js_slice t start (start + sz)])
                else Some chunks) = Some cs"
  show "\<not> (sz = ov \<and> start < int (length t) \<and> start + sz < int (length t))"
  proof
    assume a: "sz = ov \<and> start < int (length t) \<and> start + sz < int (length t)"
    with step have "loop t sz ov (start + (sz - ov)) (chunks @ [js_slice t start (start + sz)]) = Some cs"
      by (simp split: if_splits)
    from IH[OF this] a show False by simp
  qed
qed

lemma chunkText_diverges:
  "chunkText ''abc'' \<lparr>size' = 1, overlap = 1\<rparr> = None"
proof (cases "chunkText ''abc'' \<lparr>size' = 1, overlap = 1\<rparr>")
  case None
  then show ?thesis .
next
  case (Some cs)
  then have "chunkLoop ''abc'' 1 1 0 [] = Some cs" by (simp add: chunkText_def)
  from chunkLoop_stuck[OF this] show ?thesis by simp
qed

text \<open>
  C7. For every text, every size > 0 and every overlap with 0 \<le> overlap < size,
  \<open>chunkText\<close> returns: the loop is not the run that never ends, and its result is a
  list of at most as many chunks as the text has characters.
\<close>

theorem chunkText_terminates:
  assumes "0 < sz" and "0 \<le> ov" and "ov < sz"
  shows "\<exists>cs. chunkText text \<lparr>size' = sz, overlap = ov\<rparr> = Some cs \<and> length cs \<le> length text"
proof (cases "text = [] \<or> int (length text) \<le> sz")
  case True
  then show ?thesis by (cases "text") (auto simp: chunkText_def)
next
  case False
  then have pos: "0 < int (length text)" and long: "sz < int (length text)" by auto
  from chunkLoop_windows[OF assms(3) assms(2) pos, of "[]"]
  obtain n where run: "chunkLoop text sz ov 0 [] = Some (map (window text sz ov 0) [0..<Suc n])"
    and full: "\<forall>i<n. int i * (sz - ov) + sz < int (length text)"
    by auto
  have "Suc n \<le> length text"
  proof (cases n)
    case 0
    then show ?thesis using pos by (simp add: Suc_le_eq)
  next
    case (Suc m)
    with full have "int m * (sz - ov) + sz < int (length text)" by simp
    moreover have "int m * 1 \<le> int m * (sz - ov)"
      using assms by (intro mult_left_mono) auto
    ultimately have "int m + 1 < int (length text)" using assms by linarith
    then show ?thesis using Suc by linarith
  qed
  moreover have "chunkText text \<lparr>size' = sz, overlap = ov\<rparr> = Some (map (window text sz ov 0) [0..<Suc n])"
    using False run by (simp add: chunkText_def)
  ultimately show ?thesis by simp
qed

theorem chunkText_terminates_witness:
  "\<exists>cs. chunkText ''abcdefghijk'' \<lparr>size' = 4, overlap = 1\<rparr> = Some cs
        \<and> length cs \<le> length ''abcdefghijk''"
  using chunkText_terminates[of 4 1 "''abcdefghijk''"] by simp

text \<open>
  C4. For a text longer than size, with size > 0 and 0 \<le> overlap < size, \<open>chunkText\<close>
  returns at least two chunks, and for every pair of consecutive chunks the last
  \<open>overlap\<close> characters of the first are the first \<open>overlap\<close> characters of the second.
  The first chunk of a pair has the full length \<open>size\<close>; the second, which may be the
  short final one, has at least \<open>overlap\<close> characters, so the property holds for the final
  pair as well.
\<close>

theorem chunkText_consecutive_overlap:
  assumes "0 < sz" and "0 \<le> ov" and "ov < sz" and "sz < int (length text)"
  shows "\<exists>cs. chunkText text \<lparr>size' = sz, overlap = ov\<rparr> = Some cs \<and> 2 \<le> length cs \<and>
           (\<forall>i. Suc i < length cs \<longrightarrow>
                length (cs ! i) = nat sz \<and>
                nat ov \<le> length (cs ! Suc i) \<and>
                drop (length (cs ! i) - nat ov) (cs ! i) = take (nat ov) (cs ! Suc i))"
proof -
  have pos: "0 < int (length text)" using assms by linarith
  then have ne: "text \<noteq> []" by auto
  from chunkLoop_windows[OF assms(3) assms(2) pos, of "[]"]
  obtain n where run: "chunkLoop text sz ov 0 [] = Some (map (window text sz ov 0) [0..<Suc n])"
    and full: "\<forall>i<n. int i * (sz - ov) + sz < int (length text)"
    and fin: "int (length text) \<le> int n * (sz - ov) + sz"
    by auto
  define cs where "cs = map (window text sz ov 0) [0..<Suc n]"
  have len: "length cs = Suc n" unfolding cs_def by (simp del: upt_Suc)
  have nth: "cs ! j = window text sz ov 0 j" if "j \<le> n" for j
  proof -
    have "cs ! j = window text sz ov 0 (0 + j)"
      unfolding cs_def by (rule nth_map_upt) (use that in simp)
    then show ?thesis by simp
  qed
  have ct: "chunkText text \<lparr>size' = sz, overlap = ov\<rparr> = Some cs"
    using assms run ne unfolding cs_def by (simp add: chunkText_def del: upt_Suc)
  have n1: "1 \<le> n"
  proof (rule ccontr)
    assume "\<not> 1 \<le> n"
    then have "n = 0" by simp
    with fin assms show False by simp
  qed
  have two: "2 \<le> length cs" using n1 len by linarith
  have pair: "length (cs ! i) = nat sz \<and> nat ov \<le> length (cs ! Suc i) \<and>
              drop (length (cs ! i) - nat ov) (cs ! i) = take (nat ov) (cs ! Suc i)"
    if i: "Suc i < length cs" for i
  proof -
    have iltn: "i < n" using i len by simp
    define k where "k = nat sz"
    define v where "v = nat ov"
    define a where "a = i * (k - v)"
    have kv: "v \<le> k" "int k = sz" "int v = ov" "int (k - v) = sz - ov"
      using assms by (auto simp: k_def v_def)
    have a_int: "int a = int i * (sz - ov)" using kv by (simp add: a_def)
    have "int a + int k < int (length text)"
      using full iltn a_int kv by simp
    then have bound: "a + k < length text" by linarith
    have wi: "cs ! i = take k (drop a text)"
    proof -
      have "cs ! i = window text sz ov 0 i" using iltn by (simp add: nth)
      also have "\<dots> = js_slice text (int a) (int a + int k)"
        by (simp add: window_def a_int kv)
      also have "\<dots> = take k (drop a text)"
        by (rule js_slice_batch)
      finally show ?thesis .
    qed
    have wS: "cs ! Suc i = take k (drop (a + (k - v)) text)"
    proof -
      have "cs ! Suc i = window text sz ov 0 (Suc i)" using iltn by (simp add: nth)
      also have "\<dots> = js_slice text (int (a + (k - v))) (int (a + (k - v)) + int k)"
      proof -
        have idx: "0 + int (Suc i) * (sz - ov) = int (a + (k - v))"
          using a_int kv by (simp add: algebra_simps)
        show ?thesis unfolding window_def idx by (simp add: kv(2))
      qed
      also have "\<dots> = take k (drop (a + (k - v)) text)"
        by (rule js_slice_batch)
      finally show ?thesis .
    qed
    have l1: "length (cs ! i) = k"
      by (simp only: wi) (use bound in simp)
    have l2: "v \<le> length (cs ! Suc i)"
      by (simp only: wS) (use bound kv(1) in simp)
    have "drop (k - v) (cs ! i) = take v (cs ! Suc i)"
      unfolding wi wS by (rule window_pair[OF kv(1) bound])
    with l1 l2 show ?thesis unfolding k_def v_def by (simp only:)
  qed
  show ?thesis using ct two pair by blast
qed

theorem chunkText_consecutive_overlap_witness:
  "\<exists>cs. chunkText ''abcdefghijk'' \<lparr>size' = 4, overlap = 1\<rparr> = Some cs \<and> 2 \<le> length cs \<and>
           (\<forall>i. Suc i < length cs \<longrightarrow>
                length (cs ! i) = nat 4 \<and>
                nat 1 \<le> length (cs ! Suc i) \<and>
                drop (length (cs ! i) - nat 1) (cs ! i) = take (nat 1) (cs ! Suc i))"
  using chunkText_consecutive_overlap[of 4 1 "''abcdefghijk''"] by simp

section \<open>Properties of the context packer\<close>

lemma packLoop_prefix:
  assumes "int totalChars \<le> maxChars"
  shows "\<exists>k\<le>length ms.
           fst (packLoop ms maxChars chunks srcs seen totalChars) = chunks @ map matchText (take k ms)
         \<and> int totalChars + int (totalLength (take k ms)) \<le> maxChars
         \<and> (k < length ms \<longrightarrow> maxChars < int totalChars + int (totalLength (take (Suc k) ms)))"
  using assms
proof (induction ms arbitrary: chunks srcs seen totalChars)
  case Nil
  then show ?case by (simp add: totalLength_def)
next
  case (Cons m ms)
  show ?case
  proof (cases "int totalChars + int (length (text' (metadata m))) > maxChars")
    case True
    then have "fst (packLoop (m # ms) maxChars chunks srcs seen totalChars) = chunks @ map matchText (take 0 (m # ms))"
      by simp
    moreover have "maxChars < int totalChars + int (totalLength (take (Suc 0) (m # ms)))"
      using True by (simp add: totalLength_def matchText_def)
    ultimately show ?thesis using Cons.prems
      by (intro exI[of _ 0]) (simp add: totalLength_def)
  next
    case False
    then have le: "int (totalChars + length (text' (metadata m))) \<le> maxChars" by simp
    from Cons.IH[OF le]
    obtain k where k: "k \<le> length ms"
      and sel: "fst (packLoop ms maxChars (chunks @ [text' (metadata m)])
                  (if source (metadata m) \<in> seen then srcs else srcs @ [source (metadata m)])
                  (if source (metadata m) \<in> seen then seen else insert (source (metadata m)) seen)
                  (totalChars + length (text' (metadata m))))
                = (chunks @ [text' (metadata m)]) @ map matchText (take k ms)"
      and fit: "int (totalChars + length (text' (metadata m))) + int (totalLength (take k ms)) \<le> maxChars"
      and stop: "k < length ms \<longrightarrow>
                  maxChars < int (totalChars + length (text' (metadata m))) + int (totalLength (take (Suc k) ms))"
      by blast
    have "fst (packLoop (m # ms) maxChars chunks srcs seen totalChars)
            = chunks @ map matchText (take (Suc k) (m # ms))"
      using False sel by (simp add: matchText_def)
    moreover have "int totalChars + int (totalLength (take (Suc k) (m # ms))) \<le> maxChars"
      using fit by (simp add: totalLength_def matchText_def)
    moreover have "Suc k < length (m # ms) \<longrightarrow>
                    maxChars < int totalChars + int (totalLength (take (Suc (Suc k)) (m # ms)))"
      using stop by (simp add: totalLength_def matchText_def add.assoc)
    ultimately show ?thesis using k by (intro exI[of _ "Suc k"]) simp
  qed
qed

lemma length_js_join:
  "length (js_join sep xs) = sum_list (map length xs) + length sep * (length xs - 1)"
  by (induction sep xs rule: js_join.induct) auto

text \<open>
  C2. For every list of matches and every maxChars > 0: the packed text is the join of
  the texts of the first \<open>k\<close> matches, for some \<open>k\<close>; these texts together have at most
  maxChars characters (the packed text has seven more for each separator); and if a match
  is left out, then match \<open>k\<close>, the first one left out, is one whose text would push the
  total over maxChars. So the selection is a prefix of the ranking: nothing after the
  first overflowing match is included, whatever its size.
\<close>

theorem packContext_budget:
  assumes "0 < maxChars"
  shows "\<exists>k\<le>length matches.
           context' (packContext matches maxChars)
             = js_join packSeparator (map matchText (take k matches))
         \<and> int (totalLength (take k matches)) \<le> maxChars
         \<and> length (context' (packContext matches maxChars))
             = totalLength (take k matches) + 7 * (k - 1)
         \<and> (k < length matches \<longrightarrow> maxChars < int (totalLength (take (Suc k) matches)))"
proof -
  have "int (0::nat) \<le> maxChars" using assms by simp
  from packLoop_prefix[OF this, of matches "[]" "[]" "{}"]
  obtain k where k: "k \<le> length matches"
    and sel: "fst (packLoop matches maxChars [] [] {} 0) = map matchText (take k matches)"
    and fit: "int (totalLength (take k matches)) \<le> maxChars"
    and stop: "k < length matches \<longrightarrow> maxChars < int (totalLength (take (Suc k) matches))"
    by auto
  have ctx: "context' (packContext matches maxChars)
          = js_join packSeparator (map matchText (take k matches))"
    using sel by (cases "packLoop matches maxChars [] [] {} 0") (simp add: packContext_def)
  have "length (context' (packContext matches maxChars)) = totalLength (take k matches) + 7 * (k - 1)"
    unfolding ctx length_js_join using k
    by (simp add: totalLength_def packSeparator_def comp_def min_def)
  with k ctx fit stop show ?thesis by blast
qed

theorem packContext_budget_witness:
  "(0::int) < 6
   \<and> context' (packContext rankedMatches 6) = ''aaaa''
   \<and> (\<exists>k\<le>length rankedMatches.
           context' (packContext rankedMatches 6)
             = js_join packSeparator (map matchText (take k rankedMatches))
         \<and> int (totalLength (take k rankedMatches)) \<le> 6
         \<and> length (context' (packContext rankedMatches 6))
             = totalLength (take k rankedMatches) + 7 * (k - 1)
         \<and> (k < length rankedMatches \<longrightarrow> 6 < int (totalLength (take (Suc k) rankedMatches))))"
proof -
  have pos: "(0::int) < 6" by simp
  have ev: "context' (packContext rankedMatches 6) = ''aaaa''"
    by (simp add: packContext_def rankedMatches_def)
  from pos ev packContext_budget[OF pos, of rankedMatches] show ?thesis by blast
qed

section \<open>Properties of option normalization\<close>

lemma numberOr_nonzero: "d \<noteq> 0 \<Longrightarrow> numberOr x d \<noteq> 0"
  by (simp add: numberOr_def split: option.splits)

lemma numberOr_zero: "numberOr (Some 0) d = d"
  by (simp add: numberOr_def)

text \<open>
  C9. Whenever \<open>normalizeOptions\<close> returns a configuration, a chunk overlap, chunk size,
  topK or maxContextChars that the options set to 0 has been replaced by its default (150,
  1000, 8, 8000), and so has a topK or maxContextChars of 0 in the options of
  \<open>createContextWindowWithoutIngestion\<close>; hence no options value yields a configuration
  with chunk overlap 0 (or with any of the other three at 0).
\<close>

theorem normalizeOptions_zero_is_default:
  "(normalizeOptions opts = Inr config \<longrightarrow>
      (Option.bind (chunk opts) ChunkConfig.overlap = Some 0
         \<longrightarrow> NormalizedOptions.chunkOverlap config = 150)
    \<and> (Option.bind (chunk opts) ChunkConfig.size' = Some 0
         \<longrightarrow> NormalizedOptions.chunkSize config = 1000)
    \<and> (Option.bind (limits opts) LimitsConfig.topK = Some 0
         \<longrightarrow> NormalizedOptions.topK config = 8)
    \<and> (Option.bind (limits opts) LimitsConfig.maxContextChars = Some 0
         \<longrightarrow> NormalizedOptions.maxContextChars config = 8000)
    \<and> NormalizedOptions.chunkOverlap config \<noteq> 0
    \<and> NormalizedOptions.chunkSize config \<noteq> 0
    \<and> NormalizedOptions.topK config \<noteq> 0
    \<and> NormalizedOptions.maxContextChars config \<noteq> 0)
   \<and> (Option.bind options GetContextWindowOptions.topK = Some 0
         \<longrightarrow> ContextWindow.topK (createContextWindowWithoutIngestion n options) = 8)
   \<and> (Option.bind options GetContextWindowOptions.maxContextChars = Some 0
         \<longrightarrow> ContextWindow.maxContextChars (createContextWindowWithoutIngestion n options) = 8000)"
  by (auto simp: normalizeOptions_def createContextWindowWithoutIngestion_def Let_def
        numberOr_zero numberOr_nonzero split: option.splits if_splits)

theorem normalizeOptions_zero_is_default_witness:
  "\<exists>config. normalizeOptions zeroOptions = Inr config
      \<and> NormalizedOptions.chunkOverlap config = 150
      \<and> NormalizedOptions.chunkSize config = 1000
      \<and> NormalizedOptions.topK config = 8
      \<and> NormalizedOptions.maxContextChars config = 8000
      \<and> ContextWindow.topK (createContextWindowWithoutIngestion ''docs'' (Some zeroGetOptions)) = 8
      \<and> ContextWindow.maxContextChars
            (createContextWindowWithoutIngestion ''docs'' (Some zeroGetOptions)) = 8000"
proof -
  obtain config where ok: "normalizeOptions zeroOptions = Inr config"
    by (simp add: normalizeOptions_def zeroOptions_def)
  have zeros:
    "Option.bind (chunk zeroOptions) ChunkConfig.overlap = Some 0"
    "Option.bind (chunk zeroOptions) ChunkConfig.size' = Some 0"
    "Option.bind (limits zeroOptions) LimitsConfig.topK = Some 0"
    "Option.bind (limits zeroOptions) LimitsConfig.maxContextChars = Some 0"
    "Option.bind (Some zeroGetOptions) GetContextWindowOptions.topK = Some 0"
    "Option.bind (Some zeroGetOptions) GetContextWindowOptions.maxContextChars = Some 0"
    by (simp_all add: zeroOptions_def zeroGetOptions_def)
  from normalizeOptions_zero_is_default[of zeroOptions config "Some zeroGetOptions" "''docs''"]
    ok zeros
  show ?thesis by blast
qed

section \<open>Properties of the registry\<close>

text \<open>
  C8. \<open>getCtxWindow\<close> has no failing branch: for every name, options and registry it
  returns a window. On a name that is not registered it returns the window that
  \<open>createContextWindowWithoutIngestion\<close> builds for that name, bound to the name as its
  namespace unless the options give one, and registers it, so that \<open>hasCtxWindow\<close> on the
  name is true afterwards and every other entry is as before. On a registered name it
  returns the registered window and leaves the registry unchanged.
\<close>

theorem getCtxWindow_connects:
  "(registry n = None \<longrightarrow>
      fst (getCtxWindow n options registry) = createContextWindowWithoutIngestion n options
    \<and> ContextWindow.namespace (fst (getCtxWindow n options registry))
        = stringOr (Option.bind options GetContextWindowOptions.namespace) n
    \<and> snd (getCtxWindow n options registry) n = Some (fst (getCtxWindow n options registry))
    \<and> (\<forall>other. other \<noteq> n \<longrightarrow> snd (getCtxWindow n options registry) other = registry other))
   \<and> (\<forall>cw. registry n = Some cw \<longrightarrow> getCtxWindow n options registry = (cw, registry))
   \<and> hasCtxWindow n (snd (getCtxWindow n options registry))"
  by (auto simp: getCtxWindow_def hasCtxWindow_def createContextWindowWithoutIngestion_def
        split: option.splits)

theorem getCtxWindow_connects_witness:
  "\<not> hasCtxWindow ''ns'' Map.empty
   \<and> fst (getCtxWindow ''ns'' None Map.empty) = createContextWindowWithoutIngestion ''ns'' None
   \<and> ContextWindow.namespace (fst (getCtxWindow ''ns'' None Map.empty)) = ''ns''
   \<and> hasCtxWindow ''ns'' (snd (getCtxWindow ''ns'' None Map.empty))
   \<and> getCtxWindow ''ns'' (Some zeroGetOptions) (snd (getCtxWindow ''ns'' None Map.empty))
       = (createContextWindowWithoutIngestion ''ns'' None, snd (getCtxWindow ''ns'' None Map.empty))
   \<and> fst (ask countingEnv (fst (getCtxWindow ''ns'' None Map.empty)) ''Anything there?''
            \<lparr>world = 0, trace = []\<rparr>) = Inr unknownAnswer"
proof -
  have usable: "fst (ask countingEnv (fst (getCtxWindow ''ns'' None Map.empty)) ''Anything there?''
                  \<lparr>world = 0, trace = []\<rparr>) = Inr unknownAnswer"
    by (simp add: getCtxWindow_def ask_def invoke_def countingEnv_def outcomeOf_def
          packContext_def js_trim_def Let_def)
  define reg where "reg = snd (getCtxWindow ''ns'' None Map.empty)"
  define cw where "cw = fst (getCtxWindow ''ns'' None Map.empty)"
  have fresh: "(Map.empty :: registry) ''ns'' = None" by simp
  have absent: "\<not> hasCtxWindow ''ns'' Map.empty" by (simp add: hasCtxWindow_def)
  have ns: "stringOr (Option.bind None GetContextWindowOptions.namespace) ''ns'' = ''ns''"
    by (simp add: stringOr_def)
  note first = getCtxWindow_connects[of Map.empty "''ns''" None, folded reg_def cw_def]
  note again = getCtxWindow_connects[of reg "''ns''" "Some zeroGetOptions"]
  from first fresh have made: "cw = createContextWindowWithoutIngestion ''ns'' None" by blast
  from first fresh ns have bound: "ContextWindow.namespace cw = ''ns''" by metis
  from first fresh have stored: "reg ''ns'' = Some cw" by blast
  from first have has: "hasCtxWindow ''ns'' reg" by blast
  from again stored have "getCtxWindow ''ns'' (Some zeroGetOptions) reg = (cw, reg)" by blast
  with made have same: "getCtxWindow ''ns'' (Some zeroGetOptions) reg
                          = (createContextWindowWithoutIngestion ''ns'' None, reg)" by simp
  from absent made bound has same usable show ?thesis unfolding reg_def cw_def by blast
qed

section \<open>Properties of the context window\<close>

text \<open>
  C1. For every options value whose \<open>indexName\<close> (the required name of the window, which
  the specification calls the namespace) is missing or empty, or whose list of data paths
  is empty, \<open>createContextWindow\<close> returns an error and the state it was called in: the
  world is untouched and the trace has no new call, so no collaborator (index
  provisioning, file system, extraction, embedding, upsert) was invoked.
\<close>

theorem createContextWindow_rejects_configuration:
  assumes "CreateContextWindowOptions.indexName opts = None
           \<or> CreateContextWindowOptions.indexName opts = Some []
           \<or> data opts = PathList []"
  shows "\<exists>message. createContextWindow depth env opts s = Some (Inl (Error message), s)
           \<and> message \<in> {''indexName is required'', ''at least one data path is required''}"
  using assms
  by (auto simp: createContextWindow_def normalizeOptions_def Let_def split: option.splits)

theorem createContextWindow_rejects_configuration_witness:
  "createContextWindow 3 countingEnv noName \<lparr>world = 0, trace = []\<rparr>
     = Some (Inl (Error ''indexName is required''), \<lparr>world = 0, trace = []\<rparr>)
   \<and> createContextWindow 3 countingEnv noData \<lparr>world = 0, trace = []\<rparr>
     = Some (Inl (Error ''at least one data path is required''), \<lparr>world = 0, trace = []\<rparr>)"
proof -
  have a: "CreateContextWindowOptions.indexName noName = None" by (simp add: noName_def)
  have b: "data noData = PathList []" by (simp add: noData_def)
  have na: "normalizeOptions noName = Inl (Error ''indexName is required'')"
    by (simp add: normalizeOptions_def noName_def)
  have nb: "normalizeOptions noData = Inl (Error ''at least one data path is required'')"
    by (simp add: normalizeOptions_def noData_def)
  from createContextWindow_rejects_configuration[of noName 3 countingEnv "\<lparr>world = 0, trace = []\<rparr>"] a
  obtain m1 where m1: "createContextWindow 3 countingEnv noName \<lparr>world = 0, trace = []\<rparr>
                 = Some (Inl (Error m1), \<lparr>world = 0, trace = []\<rparr>)" by blast
  from createContextWindow_rejects_configuration[of noData 3 countingEnv "\<lparr>world = 0, trace = []\<rparr>"] b
  obtain m2 where m2: "createContextWindow 3 countingEnv noData \<lparr>world = 0, trace = []\<rparr>
                 = Some (Inl (Error m2), \<lparr>world = 0, trace = []\<rparr>)" by blast
  have "m1 = ''indexName is required''" using m1 na by (simp add: createContextWindow_def)
  moreover have "m2 = ''at least one data path is required''"
    using m2 nb by (simp add: createContextWindow_def)
  ultimately show ?thesis using m1 m2 by simp
qed

lemma chatCalls_append [simp]: "chatCalls (xs @ ys) = chatCalls xs @ chatCalls ys"
  by (simp add: chatCalls_def)

lemma chatCalls_simps [simp]:
  "chatCalls [] = []"
  "chatCalls ((Embed texts, oc) # tr) = chatCalls tr"
  "chatCalls ((Query args, oc) # tr) = chatCalls tr"
  "chatCalls ((Chat cargs, oc) # tr) = cargs # chatCalls tr"
  by (simp_all add: chatCalls_def)

lemma blank_Nil [simp]: "blank []"
  by (simp add: blank_def js_trim_def)

lemma ask_blank:
  assumes emb: "createOpenAIEmbed env [question] (world s) = (Inr vectors, w1)"
    and qry: "createPineconeQuery env (queryArgs config vectors) w1 = (Inr matches, w2)"
    and blk: "blank (context' (packContext matches (ContextWindow.maxContextChars config)))"
  shows "ask env config question s =
           (Inr unknownAnswer,
            \<lparr>world = w2,
             trace = trace s @ [(Embed [question], Resolved),
                                (Query (queryArgs config vectors), Resolved)]\<rparr>)"
proof -
  have e: "invoke (Embed [question]) (createOpenAIEmbed env [question]) s
             = (Inr vectors, \<lparr>world = w1, trace = trace s @ [(Embed [question], Resolved)]\<rparr>)"
    using emb by (simp add: invoke_def outcomeOf_def)
  have q: "invoke (Query (queryArgs config vectors))
             (createPineconeQuery env (queryArgs config vectors))
             \<lparr>world = w1, trace = trace s @ [(Embed [question], Resolved)]\<rparr>
           = (Inr matches,
              \<lparr>world = w2,
               trace = trace s @ [(Embed [question], Resolved),
                                  (Query (queryArgs config vectors), Resolved)]\<rparr>)"
    using qry by (simp add: invoke_def outcomeOf_def)
  from blk have "length (js_trim (context' (packContext matches (ContextWindow.maxContextChars config)))) = 0"
    by (simp add: blank_def)
  then show ?thesis
    by (simp add: ask_def e q Let_def)
qed

text \<open>
  C3. For every question: when the embedding of the question succeeds and the vector
  query returns no match, \<open>ask\<close> returns the fixed answer "I don't know based on the
  uploaded files." with no sources, after exactly two calls, the embedding and the query;
  the generation collaborator is not invoked.
\<close>

theorem ask_without_matches:
  assumes "createOpenAIEmbed env [question] (world s) = (Inr vectors, w1)"
    and "createPineconeQuery env (queryArgs config vectors) w1 = (Inr [], w2)"
  shows "ask env config question s =
           (Inr unknownAnswer,
            \<lparr>world = w2,
             trace = trace s @ [(Embed [question], Resolved),
                                (Query (queryArgs config vectors), Resolved)]\<rparr>)
         \<and> AskResult.text' unknownAnswer = ''I don't know based on the uploaded files.''
         \<and> AskResult.sources unknownAnswer = []
         \<and> chatCalls (trace (snd (ask env config question s))) = chatCalls (trace s)"
proof -
  have "blank (context' (packContext [] (ContextWindow.maxContextChars config)))"
    by (simp add: packContext_def)
  from ask_blank[OF assms this] show ?thesis
    by (simp add: unknownAnswer_def)
qed

theorem ask_without_matches_witness:
  "ask countingEnv docsWindow ''When was America founded?'' \<lparr>world = 0, trace = []\<rparr> =
     (Inr \<lparr>AskResult.text' = ''I don't know based on the uploaded files.'', AskResult.sources = []\<rparr>,
      \<lparr>world = 2,
       trace = [(Embed [''When was America founded?''], Resolved),
                (Query (queryArgs docsWindow [[1]]), Resolved)]\<rparr>)
   \<and> chatCalls (trace (snd (ask countingEnv docsWindow ''When was America founded?''
                                 \<lparr>world = 0, trace = []\<rparr>))) = []"
proof -
  have e: "createOpenAIEmbed countingEnv [''When was America founded?'']
             (world \<lparr>world = 0, trace = []\<rparr>) = (Inr [[1]], 1)"
    by (simp add: countingEnv_def)
  have q: "createPineconeQuery countingEnv (queryArgs docsWindow [[1]]) 1 = (Inr [], 2)"
    by (simp add: countingEnv_def)
  from ask_without_matches[OF e q] show ?thesis
    by (simp add: unknownAnswer_def)
qed

lemma packContext_single_blank:
  assumes "blank (matchText m)"
  shows "blank (context' (packContext [m] maxChars))"
  using assms by (simp add: packContext_def matchText_def)

text \<open>
  C10, as amended. For every question: when the embedding and the query succeed and the
  packed context is empty or white space only, \<open>ask\<close> returns the fixed answer with no
  sources and does not invoke the generation collaborator, whatever matches the query
  returned and whatever source labels the packer collected. In particular this is so
  when the query returns a single match whose stored text is empty or white space only.
\<close>

theorem ask_blank_context:
  assumes "createOpenAIEmbed env [question] (world s) = (Inr vectors, w1)"
    and "createPineconeQuery env (queryArgs config vectors) w1 = (Inr matches, w2)"
    and "blank (context' (packContext matches (ContextWindow.maxContextChars config)))
         \<or> (\<exists>m. matches = [m] \<and> blank (matchText m))"
  shows "ask env config question s =
           (Inr \<lparr>AskResult.text' = ''I don't know based on the uploaded files.'',
                 AskResult.sources = []\<rparr>,
            \<lparr>world = w2,
             trace = trace s @ [(Embed [question], Resolved),
                                (Query (queryArgs config vectors), Resolved)]\<rparr>)
         \<and> chatCalls (trace (snd (ask env config question s))) = chatCalls (trace s)"
proof -
  have "blank (context' (packContext matches (ContextWindow.maxContextChars config)))"
    using assms(3) packContext_single_blank by blast
  from ask_blank[OF assms(1) assms(2) this] show ?thesis
    by (simp add: unknownAnswer_def)
qed

theorem ask_blank_context_witness:
  "blank (matchText blankMatch)
   \<and> sources (packContext [blankMatch] (ContextWindow.maxContextChars docsWindow)) = [''notes.txt'']
   \<and> ask (answering [blankMatch]) docsWindow ''When was America founded?'' \<lparr>world = 0, trace = []\<rparr> =
       (Inr \<lparr>AskResult.text' = ''I don't know based on the uploaded files.'', AskResult.sources = []\<rparr>,
        \<lparr>world = 2,
         trace = [(Embed [''When was America founded?''], Resolved),
                  (Query (queryArgs docsWindow [[1]]), Resolved)]\<rparr>)"
proof -
  have b: "blank (matchText blankMatch)"
    by (simp add: blank_def matchText_def blankMatch_def js_trim_def isWhiteSpace_def)
  have src: "sources (packContext [blankMatch] (ContextWindow.maxContextChars docsWindow)) = [''notes.txt'']"
    by (simp add: packContext_def blankMatch_def docsWindow_def
          createContextWindowWithoutIngestion_def numberOr_def)
  have e: "createOpenAIEmbed (answering [blankMatch]) [''When was America founded?'']
             (world \<lparr>world = 0, trace = []\<rparr>) = (Inr [[1]], 1)"
    by (simp add: countingEnv_def answering_def)
  have q: "createPineconeQuery (answering [blankMatch]) (queryArgs docsWindow [[1]]) 1
             = (Inr [blankMatch], 2)"
    by (simp add: answering_def)
  have h: "blank (context' (packContext [blankMatch] (ContextWindow.maxContextChars docsWindow)))
           \<or> (\<exists>m. [blankMatch] = [m] \<and> blank (matchText m))"
    using b by blast
  from ask_blank_context[OF e q h] b src show ?thesis by simp
qed

text \<open>
  The claim as stated fails when two matches are selected: their blank texts are joined
  with the separator, the packed context is not blank, the generation collaborator is
  invoked and the collected sources are returned.
\<close>

theorem ask_blank_matches_counterexample:
  "list_all (\<lambda>m. blank (matchText m)) [emptyMatch, blankMatch]
   \<and> fst (ask (answering [emptyMatch, blankMatch]) docsWindow ''When was America founded?''
            \<lparr>world = 0, trace = []\<rparr>)
       = Inr \<lparr>AskResult.text' = ''In 1776.'', AskResult.sources = [''empty.txt'', ''notes.txt'']\<rparr>
   \<and> length (chatCalls (trace (snd (ask (answering [emptyMatch, blankMatch]) docsWindow
            ''When was America founded?'' \<lparr>world = 0, trace = []\<rparr>)))) = 1"
  by (simp add: blank_def matchText_def blankMatch_def emptyMatch_def js_trim_def isWhiteSpace_def
        ask_def invoke_def outcomeOf_def answering_def countingEnv_def queryArgs_def docsWindow_def
        createContextWindowWithoutIngestion_def numberOr_def stringOr_def packContext_def
        packSeparator_def Let_def)

section \<open>Properties of ingestion\<close>








text \<open>
  Once the files are collected and read, the run returns: the loop over the batches is
  total, and the upsert is one call.
\<close>

lemma ingestPaths_returns:
  assumes "collectFiles depth env (inputs options) s = Some (Inr files, u)"
    and "processFiles env (chunkSize options) (chunkOverlap options) files [] u = Some (allRecords, v)"
  shows "\<exists>r t. ingestPaths depth env options s = Some (r, t)"
  using assms
  by (cases "embedBatches (embed options) allRecords 0 v")
     (auto simp: ingestPaths_def split: sum.splits prod.splits)



















end
